theory Spec2Isabelle
  imports Main
begin

section \<open>Conventions\<close>

text \<open>
  Moleskine is a browser application written in JavaScript. Its modules (Auth, Storage,
  GitHub, Markdown, Editor, Whiteboard) are closures over a few private variables; each
  module is modelled by a record of those variables and each function by a HOL function
  that takes the record and returns the updated one.

  A JavaScript string is modelled by a HOL \<open>string\<close>; a \<open>char\<close> stands for one UTF-16
  code unit in the range U+0000..U+00FF. Values that the browser supplies (the data URL of
  the canvas, the clock, the result of a DOM lookup, the response of \<open>fetch\<close>, the
  third-party libraries) are parameters of the functions that read them.
\<close>

section \<open>Whiteboard: the undo/redo history\<close>

text \<open>
  The module variables \<open>canvas\<close>, \<open>ctx\<close>, \<open>history\<close> and \<open>historyIndex\<close>.
  Of \<open>canvas\<close> and \<open>ctx\<close> only whether they are non-null is kept. A snapshot is the
  string returned by \<open>canvas.toDataURL()\<close>.
\<close>

record whiteboard =
  canvas :: bool
  ctx :: bool
  history :: "string list"
  historyIndex :: int

definition MAX_HISTORY :: nat where
  "MAX_HISTORY = 50"

text \<open>\<open>let history = []; let historyIndex = -1;\<close> with \<open>canvas\<close> and \<open>ctx\<close> null.\<close>

definition wb_initial :: whiteboard where
  "wb_initial = \<lparr>canvas = False, ctx = False, history = [], historyIndex = - 1\<rparr>"

text \<open>
  \<open>Array.prototype.slice(0, end)\<close>: a negative \<open>end\<close> counts from the end of the array,
  and the result is clamped to the array.
\<close>

definition js_slice0 :: "'a list \<Rightarrow> int \<Rightarrow> 'a list" where
  "js_slice0 xs e =
     (let len = int (length xs);
          final = (if e < 0 then max (len + e) 0 else min e len)
      in take (nat final) xs)"

text \<open>
  \<open>saveState()\<close>; \<open>snap\<close> is the value of \<open>canvas.toDataURL()\<close> at the call.
  \<open>history.shift()\<close> drops the oldest snapshot.
\<close>

definition saveState :: "string \<Rightarrow> whiteboard \<Rightarrow> whiteboard" where
  "saveState snap w =
     (if \<not> canvas w then w
      else
        let h1 = js_slice0 (history w) (historyIndex w + 1);
            h2 = h1 @ [snap];
            i2 = historyIndex w + 1
        in if length h2 > MAX_HISTORY
           then w\<lparr>history := tl h2, historyIndex := i2 - 1\<rparr>
           else w\<lparr>history := h2, historyIndex := i2\<rparr>)"

text \<open>
  \<open>undo()\<close> and \<open>redo()\<close> move the index and load \<open>history[historyIndex]\<close> into an
  image that is painted on the canvas when it has loaded. The pixels of the canvas are not
  part of the history state, so only the index changes here; \<open>current_snapshot\<close> is the
  snapshot that the repaint reads.
\<close>

definition undo :: "whiteboard \<Rightarrow> whiteboard" where
  "undo w = (if historyIndex w > 0 then w\<lparr>historyIndex := historyIndex w - 1\<rparr> else w)"

definition redo :: "whiteboard \<Rightarrow> whiteboard" where
  "redo w =
     (if historyIndex w < int (length (history w)) - 1
      then w\<lparr>historyIndex := historyIndex w + 1\<rparr> else w)"

text \<open>\<open>history[historyIndex]\<close>: \<open>undefined\<close> (here \<open>None\<close>) outside the array.\<close>

definition current_snapshot :: "whiteboard \<Rightarrow> string option" where
  "current_snapshot w =
     (if 0 \<le> historyIndex w \<and> historyIndex w < int (length (history w))
      then Some (history w ! nat (historyIndex w)) else None)"

text \<open>
  \<open>clear()\<close>: returns when \<open>ctx\<close> is null; \<open>ctx.clearRect(0, 0, canvas.width, ...)\<close>
  throws when \<open>canvas\<close> is null, which leaves the variables as they are; otherwise the
  cleared canvas is saved (\<open>snap\<close> is its data URL).
\<close>

definition clear :: "string \<Rightarrow> whiteboard \<Rightarrow> whiteboard" where
  "clear snap w =
     (if \<not> ctx w then w
      else if \<not> canvas w then w
      else saveState snap w)"

text \<open>
  \<open>init()\<close>; \<open>found\<close> tells whether \<open>document.getElementById('whiteboard-canvas')\<close>
  returned an element. Without the element \<open>init\<close> returns at its guard. The calls between
  the guard and \<open>saveState()\<close> (\<open>resizeCanvas\<close>, \<open>addEventListener\<close>, \<open>initToolbar\<close>) do
  not touch the history and are taken to return. The application calls \<open>init\<close> again each
  time the whiteboard view is shown.
\<close>

definition init :: "bool \<Rightarrow> string \<Rightarrow> whiteboard \<Rightarrow> whiteboard" where
  "init found snap w =
     (let w1 = w\<lparr>canvas := found\<rparr>
      in if \<not> found then w1
         else saveState snap (w1\<lparr>ctx := True\<rparr>))"

text \<open>
  The operations that touch the history: \<open>init\<close>, \<open>saveState\<close> (called at the end of
  every stroke by \<open>handleMouseUp\<close>), \<open>undo\<close>, \<open>redo\<close> and \<open>clear\<close>.
\<close>

datatype wb_op = Init bool string | SaveState string | Undo | Redo | Clear string

fun wb_step :: "wb_op \<Rightarrow> whiteboard \<Rightarrow> whiteboard" where
  "wb_step (Init found snap) w = init found snap w"
| "wb_step (SaveState snap) w = saveState snap w"
| "wb_step Undo w = undo w"
| "wb_step Redo w = redo w"
| "wb_step (Clear snap) w = clear snap w"

fun wb_run :: "wb_op list \<Rightarrow> whiteboard \<Rightarrow> whiteboard" where
  "wb_run [] w = w"
| "wb_run (op # ops) w = wb_run ops (wb_step op w)"

text \<open>The history invariant of an initialised whiteboard, and the weaker one that also
  covers the module before its first successful \<open>init\<close>.\<close>

definition history_ok :: "whiteboard \<Rightarrow> bool" where
  "history_ok w \<longleftrightarrow>
     length (history w) \<le> MAX_HISTORY \<and> 0 \<le> historyIndex w \<and>
     historyIndex w < int (length (history w))"

definition history_weak :: "whiteboard \<Rightarrow> bool" where
  "history_weak w \<longleftrightarrow>
     length (history w) \<le> MAX_HISTORY \<and> - 1 \<le> historyIndex w \<and>
     historyIndex w < int (length (history w))"

subsection \<open>The invariant is kept by every operation\<close>

lemma js_slice0_take:
  "- 1 \<le> i \<Longrightarrow> i < int (length xs) \<Longrightarrow> js_slice0 xs (i + 1) = take (nat (i + 1)) xs"
  by (simp add: js_slice0_def Let_def min_def)

lemma saveState_ok:
  assumes "history_weak w" "canvas w"
  shows "history_ok (saveState snap w)"
proof -
  let ?i = "historyIndex w"
  from assms(1) have b: "- 1 \<le> ?i" "?i < int (length (history w))"
    and l: "length (history w) \<le> MAX_HISTORY"
    by (simp_all add: history_weak_def)
  have len: "length (take (nat (?i + 1)) (history w)) = nat (?i + 1)"
    using b by simp
  show ?thesis
    using assms(2) b l len
    by (auto simp add: saveState_def js_slice0_take Let_def history_ok_def MAX_HISTORY_def)
qed

lemma saveState_weak: "history_weak w \<Longrightarrow> history_weak (saveState snap w)"
proof (cases "canvas w")
  case True
  assume "history_weak w"
  from saveState_ok [OF this True, of snap] show ?thesis
    by (simp add: history_ok_def history_weak_def)
next
  case False
  assume "history_weak w"
  with False show ?thesis by (simp add: saveState_def)
qed

lemma saveState_keeps_ok: "history_ok w \<Longrightarrow> history_ok (saveState snap w)"
proof (cases "canvas w")
  case True
  assume "history_ok w"
  then have "history_weak w" by (simp add: history_ok_def history_weak_def)
  from saveState_ok [OF this True, of snap] show ?thesis .
next
  case False
  assume "history_ok w"
  with False show ?thesis by (simp add: saveState_def)
qed

lemma undo_ok: "history_ok w \<Longrightarrow> history_ok (undo w)"
  by (simp add: undo_def history_ok_def)

lemma redo_ok: "history_ok w \<Longrightarrow> history_ok (redo w)"
  by (simp add: redo_def history_ok_def)

lemma undo_weak: "history_weak w \<Longrightarrow> history_weak (undo w)"
  by (simp add: undo_def history_weak_def)

lemma redo_weak: "history_weak w \<Longrightarrow> history_weak (redo w)"
  by (simp add: redo_def history_weak_def)

lemma clear_ok: "history_ok w \<Longrightarrow> history_ok (clear snap w)"
  by (simp add: clear_def saveState_keeps_ok)

lemma clear_weak: "history_weak w \<Longrightarrow> history_weak (clear snap w)"
  by (simp add: clear_def saveState_weak)

lemma history_ok_canvas_upd [simp]: "history_ok (w\<lparr>canvas := c\<rparr>) = history_ok w"
  by (simp add: history_ok_def)

lemma history_ok_ctx_upd [simp]: "history_ok (w\<lparr>ctx := c\<rparr>) = history_ok w"
  by (simp add: history_ok_def)

lemma history_weak_canvas_upd [simp]: "history_weak (w\<lparr>canvas := c\<rparr>) = history_weak w"
  by (simp add: history_weak_def)

lemma history_weak_ctx_upd [simp]: "history_weak (w\<lparr>ctx := c\<rparr>) = history_weak w"
  by (simp add: history_weak_def)

lemma init_ok: "history_ok w \<Longrightarrow> history_ok (init found snap w)"
  by (simp add: init_def Let_def saveState_keeps_ok)

lemma init_weak: "history_weak w \<Longrightarrow> history_weak (init found snap w)"
  by (simp add: init_def Let_def saveState_weak)

lemma init_found_ok: "history_weak w \<Longrightarrow> history_ok (init True snap w)"
  by (simp add: init_def Let_def saveState_ok)

lemma wb_step_ok: "history_ok w \<Longrightarrow> history_ok (wb_step op w)"
  by (cases op) (simp_all add: init_ok saveState_keeps_ok undo_ok redo_ok clear_ok)

lemma wb_step_weak: "history_weak w \<Longrightarrow> history_weak (wb_step op w)"
  by (cases op) (simp_all add: init_weak saveState_weak undo_weak redo_weak clear_weak)

lemma wb_run_ok: "history_ok w \<Longrightarrow> history_ok (wb_run ops w)"
  by (induction ops arbitrary: w) (simp_all add: wb_step_ok)

lemma wb_run_weak: "history_weak w \<Longrightarrow> history_weak (wb_run ops w)"
  by (induction ops arbitrary: w) (simp_all add: wb_step_weak)

lemma wb_initial_weak: "history_weak wb_initial"
  by (simp add: history_weak_def wb_initial_def)

text \<open>
  Claim C1. After \<open>init()\<close> has found the canvas element, and after any further sequence
  of \<open>saveState\<close>, \<open>undo\<close>, \<open>redo\<close> and \<open>clear\<close> (and repeated \<open>init\<close>) calls, the history
  holds at most \<open>MAX_HISTORY = 50\<close> snapshots and
  \<open>0 \<le> historyIndex < history.length\<close>.
\<close>

theorem whiteboard_history_bounded:
  "length (history (wb_run ops (init True snap wb_initial))) \<le> MAX_HISTORY \<and>
   MAX_HISTORY = 50 \<and>
   0 \<le> historyIndex (wb_run ops (init True snap wb_initial)) \<and>
   historyIndex (wb_run ops (init True snap wb_initial))
     < int (length (history (wb_run ops (init True snap wb_initial))))"
proof -
  have "history_ok (init True snap wb_initial)"
    by (rule init_found_ok [OF wb_initial_weak])
  then have "history_ok (wb_run ops (init True snap wb_initial))"
    by (rule wb_run_ok)
  then show ?thesis
    by (simp add: history_ok_def MAX_HISTORY_def)
qed

text \<open>The bound is reached: sixty strokes after \<open>init\<close> leave the fifty newest
  snapshots, with the index on the last.\<close>

lemma history_full_example:
  "history (wb_run (replicate 60 (SaveState ''s'')) (init True ''blank'' wb_initial))
     = replicate 50 ''s'' \<and>
   historyIndex (wb_run (replicate 60 (SaveState ''s'')) (init True ''blank'' wb_initial)) = 49"
  by code_simp

subsection \<open>Undo and redo\<close>

lemma undo_index:
  "history (undo w) = history w \<and>
   historyIndex (undo w) = (if 0 < historyIndex w then historyIndex w - 1 else historyIndex w)"
  by (simp add: undo_def)

lemma redo_index:
  "history (redo w) = history w \<and>
   historyIndex (redo w) =
     (if historyIndex w < int (length (history w)) - 1
      then historyIndex w + 1 else historyIndex w)"
  by (simp add: redo_def)

lemma redo_undo:
  assumes "historyIndex w < int (length (history w))" "0 < historyIndex w"
  shows "redo (undo w) = w"
  using assms by (simp add: undo_def redo_def)

text \<open>
  Claim C2. In every state that the module can reach from its initial variables:
  \<open>undo\<close> decrements \<open>historyIndex\<close> exactly when \<open>historyIndex > 0\<close> and changes nothing
  otherwise; \<open>redo\<close> increments it exactly when \<open>historyIndex < history.length - 1\<close> and
  changes nothing otherwise; neither touches the snapshots; and where \<open>undo\<close> applies,
  \<open>redo\<close> right after \<open>undo\<close> gives back the state before, hence the same index and the
  same snapshot \<open>history[historyIndex]\<close>.
\<close>

theorem undo_redo_history_index:
  "history (undo (wb_run ops wb_initial)) = history (wb_run ops wb_initial) \<and>
   history (redo (wb_run ops wb_initial)) = history (wb_run ops wb_initial) \<and>
   (0 < historyIndex (wb_run ops wb_initial) \<longrightarrow>
      historyIndex (undo (wb_run ops wb_initial)) = historyIndex (wb_run ops wb_initial) - 1) \<and>
   (\<not> 0 < historyIndex (wb_run ops wb_initial) \<longrightarrow>
      undo (wb_run ops wb_initial) = wb_run ops wb_initial) \<and>
   (historyIndex (wb_run ops wb_initial) < int (length (history (wb_run ops wb_initial))) - 1 \<longrightarrow>
      historyIndex (redo (wb_run ops wb_initial)) = historyIndex (wb_run ops wb_initial) + 1) \<and>
   (\<not> historyIndex (wb_run ops wb_initial) < int (length (history (wb_run ops wb_initial))) - 1 \<longrightarrow>
      redo (wb_run ops wb_initial) = wb_run ops wb_initial) \<and>
   (0 < historyIndex (wb_run ops wb_initial) \<longrightarrow>
      redo (undo (wb_run ops wb_initial)) = wb_run ops wb_initial \<and>
      historyIndex (redo (undo (wb_run ops wb_initial))) = historyIndex (wb_run ops wb_initial) \<and>
      current_snapshot (redo (undo (wb_run ops wb_initial))) =
        current_snapshot (wb_run ops wb_initial))"
proof -
  define w where "w = wb_run ops wb_initial"
  have "history_weak w"
    unfolding w_def by (rule wb_run_weak [OF wb_initial_weak])
  then have lt: "historyIndex w < int (length (history w))"
    by (simp add: history_weak_def)
  have ru: "0 < historyIndex w \<Longrightarrow> redo (undo w) = w"
    using lt by (rule redo_undo)
  have u: "\<not> 0 < historyIndex w \<Longrightarrow> undo w = w"
    by (simp add: undo_def)
  have r: "\<not> historyIndex w < int (length (history w)) - 1 \<Longrightarrow> redo w = w"
    by (simp add: redo_def)
  show ?thesis
    unfolding w_def [symmetric]
    using ru u r by (simp add: undo_index redo_index)
qed

theorem undo_redo_history_index_witness:
  "0 < historyIndex (wb_run [Init True ''a'', SaveState ''b''] wb_initial) \<and>
   historyIndex (undo (wb_run [Init True ''a'', SaveState ''b''] wb_initial)) = 0 \<and>
   redo (undo (wb_run [Init True ''a'', SaveState ''b''] wb_initial)) =
     wb_run [Init True ''a'', SaveState ''b''] wb_initial \<and>
   \<not> 0 < historyIndex (wb_run [Init True ''a''] wb_initial) \<and>
   undo (wb_run [Init True ''a''] wb_initial) = wb_run [Init True ''a''] wb_initial"
proof -
  let ?w2 = "wb_run [Init True ''a'', SaveState ''b''] wb_initial"
  let ?w1 = "wb_run [Init True ''a''] wb_initial"
  have s2: "?w2 = \<lparr>canvas = True, ctx = True, history = [''a'', ''b''], historyIndex = 1\<rparr>"
    by (simp add: init_def saveState_def js_slice0_def wb_initial_def MAX_HISTORY_def Let_def)
  have s1: "?w1 = \<lparr>canvas = True, ctx = True, history = [''a''], historyIndex = 0\<rparr>"
    by (simp add: init_def saveState_def js_slice0_def wb_initial_def MAX_HISTORY_def Let_def)
  have pos: "0 < historyIndex ?w2" and i2: "historyIndex ?w2 - 1 = 0"
    unfolding s2 by simp_all
  have npos: "\<not> 0 < historyIndex ?w1"
    unfolding s1 by simp
  from undo_redo_history_index [of "[Init True ''a'', SaveState ''b'']"] pos i2
  have a: "historyIndex (undo ?w2) = 0" "redo (undo ?w2) = ?w2"
    by (metis, metis)
  from undo_redo_history_index [of "[Init True ''a'']"] npos
  have b: "undo ?w1 = ?w1"
    by metis
  from pos npos a b show ?thesis by blast
qed

section \<open>Storage: drafts, settings and recent notebooks in localStorage\<close>

text \<open>
  The module keeps three JSON texts in \<open>localStorage\<close>, under \<open>moleskine_drafts\<close>,
  \<open>moleskine_settings\<close> and \<open>moleskine_recent\<close>. An item is modelled by what
  \<open>JSON.parse(localStorage.getItem(KEY))\<close> does with it: the key is not set (\<open>getItem\<close>
  returns null, which parses to null), the text does not parse (\<open>JSON.parse\<close> throws), or
  the text is the JSON of a value, as written by \<open>JSON.stringify\<close>. Strings come back from
  \<open>JSON.parse(JSON.stringify(v))\<close> as they went in, and \<open>localStorage.setItem\<close> is taken
  to succeed.
\<close>

datatype 'a item = Absent | Garbled | Parsed 'a

subsection \<open>JavaScript objects used as dictionaries\<close>

text \<open>
  An object literal \<open>{}\<close> and the objects made by \<open>JSON.parse\<close> inherit from
  \<open>Object.prototype\<close>. Reading \<open>obj[key]\<close> finds an own property first and then the
  inherited members; these are the names that \<open>Object.prototype\<close> defines in a browser.
  All of them are functions, except \<open>__proto__\<close>, an accessor whose getter returns the
  prototype object and whose setter replaces it.
\<close>

definition object_prototype_names :: "string list" where
  "object_prototype_names =
     [''constructor'', ''__defineGetter__'', ''__defineSetter__'', ''hasOwnProperty'',
      ''__lookupGetter__'', ''__lookupSetter__'', ''isPrototypeOf'',
      ''propertyIsEnumerable'', ''toString'', ''valueOf'', ''__proto__'',
      ''toLocaleString'']"

datatype 'v lookup = Own 'v | Inherited string | Undefined

text \<open>\<open>obj[key]\<close> on an object with the own properties \<open>obj\<close>.\<close>

definition js_get :: "(string \<rightharpoonup> 'v) \<Rightarrow> string \<Rightarrow> 'v lookup" where
  "js_get obj k =
     (case obj k of
        Some v \<Rightarrow> Own v
      | None \<Rightarrow> if k \<in> set object_prototype_names then Inherited k else Undefined)"

text \<open>
  \<open>obj[key] = v\<close> for an object value \<open>v\<close>: an own property is created or updated,
  except that \<open>__proto__\<close>, when it is not an own property, runs the inherited setter:
  the prototype of \<open>obj\<close> is replaced and no own property is created.
\<close>

definition js_set :: "(string \<rightharpoonup> 'v) \<Rightarrow> string \<Rightarrow> 'v \<Rightarrow> (string \<rightharpoonup> 'v)" where
  "js_set obj k v = (if k = ''__proto__'' \<and> obj k = None then obj else obj(k \<mapsto> v))"

text \<open>\<open>delete obj[key]\<close> removes an own property.\<close>

definition js_delete :: "(string \<rightharpoonup> 'v) \<Rightarrow> string \<Rightarrow> (string \<rightharpoonup> 'v)" where
  "js_delete obj k = obj(k := None)"

subsection \<open>The stored values\<close>

record draft =
  content :: string
  title :: string
  updatedAt :: string

text \<open>
  The values of a setting as JSON stores them. In memory a property can also hold
  \<open>undefined\<close> (here \<open>None\<close>); \<open>JSON.stringify\<close> leaves such a property out.
\<close>

datatype json = JNull | JBool bool | JNum int | JStr string

type_synonym jsobj = "string \<rightharpoonup> json option"

record recent_entry =
  rid :: string
  rtitle :: string
  accessedAt :: string

record notebook =
  nb_id :: string
  nb_title :: string

record storage =
  drafts_item :: "(string \<rightharpoonup> draft) item"
  settings_item :: "(string \<rightharpoonup> json) item"
  recent_item :: "recent_entry list item"

text \<open>\<open>clearAll()\<close> removes the three keys; a fresh browser profile is in this state.\<close>

definition storage_empty :: storage where
  "storage_empty = \<lparr>drafts_item = Absent, settings_item = Absent, recent_item = Absent\<rparr>"

definition clearAll :: "storage \<Rightarrow> storage" where
  "clearAll st = st\<lparr>drafts_item := Absent, settings_item := Absent, recent_item := Absent\<rparr>"

subsection \<open>Drafts\<close>

text \<open>\<open>getDrafts()\<close>: \<open>JSON.parse(...) || {}\<close>, and \<open>{}\<close> when parsing throws.\<close>

definition getDrafts :: "storage \<Rightarrow> (string \<rightharpoonup> draft)" where
  "getDrafts st = (case drafts_item st of Parsed m \<Rightarrow> m | Absent \<Rightarrow> Map.empty | Garbled \<Rightarrow> Map.empty)"

text \<open>
  \<open>saveDraft(id, content, title = 'Untitled')\<close>; \<open>stamp\<close> is \<open>new Date().toISOString()\<close>,
  and a \<open>title\<close> of \<open>None\<close> is an omitted (undefined) argument.
\<close>

definition saveDraft :: "string \<Rightarrow> string \<Rightarrow> string \<Rightarrow> string option \<Rightarrow> storage \<Rightarrow> storage" where
  "saveDraft stamp ident text ttl st =
     (let drafts = getDrafts st;
          drafts' = js_set drafts ident
            \<lparr>content = text,
             title = (case ttl of None \<Rightarrow> ''Untitled'' | Some t \<Rightarrow> t),
             updatedAt = stamp\<rparr>
      in st\<lparr>drafts_item := Parsed drafts'\<rparr>)"

text \<open>\<open>getDraft(id)\<close>: \<open>drafts[id] || null\<close>. Objects and functions are truthy.\<close>

datatype draft_result = Null | Draft draft | Builtin string

definition getDraft :: "string \<Rightarrow> storage \<Rightarrow> draft_result" where
  "getDraft ident st =
     (case js_get (getDrafts st) ident of
        Own d \<Rightarrow> Draft d
      | Inherited n \<Rightarrow> Builtin n
      | Undefined \<Rightarrow> Null)"

definition deleteDraft :: "string \<Rightarrow> storage \<Rightarrow> storage" where
  "deleteDraft ident st =
     (let drafts = getDrafts st;
          drafts' = js_delete drafts ident
      in st\<lparr>drafts_item := Parsed drafts'\<rparr>)"

subsection \<open>Settings\<close>

definition default_settings :: "string \<rightharpoonup> json" where
  "default_settings =
     [''theme'' \<mapsto> JStr ''light'', ''fontSize'' \<mapsto> JNum 16, ''editorMode'' \<mapsto> JStr ''split'']"

text \<open>\<open>getSettings()\<close>: \<open>JSON.parse(...) || defaults\<close>, and the defaults when parsing
  throws.\<close>

definition getSettings :: "storage \<Rightarrow> (string \<rightharpoonup> json)" where
  "getSettings st =
     (case settings_item st of
        Parsed m \<Rightarrow> m
      | Absent \<Rightarrow> default_settings
      | Garbled \<Rightarrow> default_settings)"

text \<open>A parsed object as an object in memory, and what
  \<open>JSON.parse(JSON.stringify(obj))\<close> keeps of an object in memory.\<close>

definition in_memory :: "(string \<rightharpoonup> json) \<Rightarrow> jsobj" where
  "in_memory m = (\<lambda>k. map_option Some (m k))"

definition stringify_parse :: "jsobj \<Rightarrow> (string \<rightharpoonup> json)" where
  "stringify_parse obj = (\<lambda>k. case obj k of Some (Some j) \<Rightarrow> Some j | Some None \<Rightarrow> None | None \<Rightarrow> None)"

text \<open>
  \<open>saveSettings(settings)\<close>: \<open>{ ...current, ...settings }\<close> copies the own properties of
  \<open>current\<close> and then those of \<open>settings\<close>. Returns the stored state and \<open>updated\<close>.
\<close>

definition saveSettings :: "jsobj \<Rightarrow> storage \<Rightarrow> storage \<times> jsobj" where
  "saveSettings settings st =
     (let current = in_memory (getSettings st);
          updated = current ++ settings
      in (st\<lparr>settings_item := Parsed (stringify_parse updated)\<rparr>, updated))"

text \<open>\<open>getSetting(key)\<close>: \<open>getSettings()[key]\<close>.\<close>

definition getSetting :: "string \<Rightarrow> storage \<Rightarrow> json lookup" where
  "getSetting k st = js_get (getSettings st) k"

text \<open>\<open>setSetting(key, value)\<close>: \<open>saveSettings({ [key]: value })\<close>; a computed key
  always makes an own property.\<close>

definition setSetting :: "string \<Rightarrow> json option \<Rightarrow> storage \<Rightarrow> storage \<times> jsobj" where
  "setSetting k v st = saveSettings [k \<mapsto> v] st"

subsection \<open>Recent notebooks\<close>

definition getRecent :: "storage \<Rightarrow> recent_entry list" where
  "getRecent st = (case recent_item st of Parsed xs \<Rightarrow> xs | Absent \<Rightarrow> [] | Garbled \<Rightarrow> [])"

text \<open>
  \<open>addToRecent(notebook)\<close>: \<open>filter\<close>, \<open>unshift\<close>, \<open>slice(0, 10)\<close>; \<open>stamp\<close> is
  \<open>new Date().toISOString()\<close>. The notebook may carry more fields than \<open>id\<close> and
  \<open>title\<close>.
\<close>

definition addToRecent :: "string \<Rightarrow> 'a notebook_scheme \<Rightarrow> storage \<Rightarrow> storage" where
  "addToRecent stamp nb st =
     (let recent = getRecent st;
          recent1 = filter (\<lambda>r. rid r \<noteq> nb_id nb) recent;
          recent2 = \<lparr>rid = nb_id nb, rtitle = nb_title nb, accessedAt = stamp\<rparr> # recent1;
          recent3 = take 10 recent2
      in st\<lparr>recent_item := Parsed recent3\<rparr>)"

subsection \<open>Properties of the draft store\<close>

lemma getDrafts_saveDraft:
  "getDrafts (saveDraft stamp ident text ttl st) =
     js_set (getDrafts st) ident
       \<lparr>content = text, title = (case ttl of None \<Rightarrow> ''Untitled'' | Some t \<Rightarrow> t),
        updatedAt = stamp\<rparr>"
  by (simp add: saveDraft_def getDrafts_def Let_def)

lemma getDrafts_deleteDraft:
  "getDrafts (deleteDraft ident st) = js_delete (getDrafts st) ident"
  by (simp add: deleteDraft_def getDrafts_def Let_def)

text \<open>Saving and reading back works for every id other than \<open>__proto__\<close>.\<close>

lemma getDraft_saveDraft_same:
  "ident \<noteq> ''__proto__'' \<Longrightarrow>
   getDraft ident (saveDraft stamp ident text (Some t) st) =
     Draft \<lparr>content = text, title = t, updatedAt = stamp\<rparr>"
  by (simp add: getDraft_def getDrafts_saveDraft js_set_def js_get_def)

text \<open>Saving under one id changes the draft of no other id.\<close>

lemma getDraft_saveDraft_other:
  "other \<noteq> ident \<Longrightarrow>
   getDraft other (saveDraft stamp ident text ttl st) = getDraft other st"
  by (simp add: getDraft_def getDrafts_saveDraft js_set_def js_get_def)

text \<open>An id that is not the name of a member of \<open>Object.prototype\<close> reads as null when
  it was never saved, and after it was deleted.\<close>

lemma getDraft_never_saved:
  "ident \<notin> set object_prototype_names \<Longrightarrow> getDrafts st ident = None \<Longrightarrow>
   getDraft ident st = Null"
  by (simp add: getDraft_def js_get_def)

lemma getDraft_deleteDraft:
  "ident \<notin> set object_prototype_names \<Longrightarrow> getDraft ident (deleteDraft ident st) = Null"
  by (simp add: getDraft_def getDrafts_deleteDraft js_delete_def js_get_def)

lemma getDrafts_storage_empty: "getDrafts storage_empty = Map.empty"
  by (simp add: getDrafts_def storage_empty_def)

text \<open>
  Claim C5 (draft persistence round-trips for every id; \<open>getDraft\<close> returns null for an
  id never saved or deleted). The code departs from it at the ids that name a member of
  \<open>Object.prototype\<close>: on an empty store \<open>getDraft('constructor')\<close> returns the inherited
  function, not null; a draft saved under \<open>__proto__\<close> is not stored, and reading it back
  returns the prototype object, which has no content and no title; and a deleted
  \<open>toString\<close> draft reads as the inherited function.
\<close>

theorem getDraft_inherited_member:
  "getDraft ''constructor'' storage_empty = Builtin ''constructor'' \<and>
   getDraft ''__proto__'' (saveDraft ''2026-01-01T00:00:00.000Z'' ''__proto__'' ''text'' (Some ''T'') storage_empty)
     = Builtin ''__proto__'' \<and>
   getDrafts (saveDraft ''2026-01-01T00:00:00.000Z'' ''__proto__'' ''text'' (Some ''T'') storage_empty)
     = Map.empty \<and>
   getDraft ''toString''
     (deleteDraft ''toString''
        (saveDraft ''2026-01-01T00:00:00.000Z'' ''toString'' ''text'' (Some ''T'') storage_empty))
     = Builtin ''toString''"
  by (simp add: getDraft_def getDrafts_saveDraft getDrafts_deleteDraft
      getDrafts_storage_empty js_get_def js_set_def js_delete_def object_prototype_names_def)

subsection \<open>Properties of the settings\<close>

lemma getSettings_saveSettings:
  "getSettings (fst (saveSettings settings st)) =
     stringify_parse (in_memory (getSettings st) ++ settings)"
  by (simp add: saveSettings_def getSettings_def Let_def)

text \<open>
  Claim C7. \<open>setSetting(key, value)\<close> stores the value under that key (an undefined value
  removes the key) and every other setting keeps the value it had in \<open>getSettings()\<close>
  before; the object it returns is the merge of the prior settings with the new property;
  when nothing is stored, or the stored text does not parse, \<open>getSettings()\<close> returns the
  defaults: theme \<open>light\<close>, fontSize 16, editorMode \<open>split\<close>, and nothing else.
\<close>

theorem setSetting_merge_only:
  "(\<forall>other. other \<noteq> k \<longrightarrow>
      getSettings (fst (setSetting k v st)) other = getSettings st other) \<and>
   getSettings (fst (setSetting k v st)) k = v \<and>
   snd (setSetting k v st) = (in_memory (getSettings st))(k \<mapsto> v) \<and>
   (settings_item st = Absent \<or> settings_item st = Garbled \<longrightarrow>
      getSettings st = default_settings) \<and>
   default_settings ''theme'' = Some (JStr ''light'') \<and>
   default_settings ''fontSize'' = Some (JNum 16) \<and>
   default_settings ''editorMode'' = Some (JStr ''split'') \<and>
   dom default_settings = {''theme'', ''fontSize'', ''editorMode''}"
proof -
  have frame: "\<forall>other. other \<noteq> k \<longrightarrow>
      getSettings (fst (setSetting k v st)) other = getSettings st other"
    by (auto simp add: setSetting_def getSettings_saveSettings stringify_parse_def
        in_memory_def map_add_def split: option.splits)
  have upd: "getSettings (fst (setSetting k v st)) k = v"
    by (cases v) (simp_all add: setSetting_def getSettings_saveSettings stringify_parse_def)
  have ret: "snd (setSetting k v st) = (in_memory (getSettings st))(k \<mapsto> v)"
    by (simp add: setSetting_def saveSettings_def Let_def)
  have dflt: "settings_item st = Absent \<or> settings_item st = Garbled \<longrightarrow>
      getSettings st = default_settings"
    by (auto simp add: getSettings_def)
  have vals: "default_settings ''theme'' = Some (JStr ''light'')"
    "default_settings ''fontSize'' = Some (JNum 16)"
    "default_settings ''editorMode'' = Some (JStr ''split'')"
    by (simp_all add: default_settings_def)
  have d: "dom default_settings = {''theme'', ''fontSize'', ''editorMode''}"
    by (auto simp add: default_settings_def)
  from frame upd ret dflt vals d show ?thesis by blast
qed

theorem setSetting_merge_only_witness:
  "getSettings (fst (setSetting ''theme'' (Some (JStr ''dark'')) storage_empty)) ''fontSize''
     = Some (JNum 16) \<and>
   getSettings (fst (setSetting ''theme'' (Some (JStr ''dark'')) storage_empty)) ''theme''
     = Some (JStr ''dark'') \<and>
   getSettings storage_empty = default_settings"
proof -
  have ne: "''fontSize'' \<noteq> ''theme''" by simp
  have ab: "settings_item storage_empty = Absent \<or> settings_item storage_empty = Garbled"
    by (simp add: storage_empty_def)
  note t = setSetting_merge_only [of "''theme''" "Some (JStr ''dark'')" storage_empty]
  note fr = t [THEN conjunct1, rule_format, OF ne]
  note up = t [THEN conjunct2, THEN conjunct1]
  note df = t [THEN conjunct2, THEN conjunct2, THEN conjunct2, THEN conjunct1, rule_format, OF ab]
  note fs = t [THEN conjunct2, THEN conjunct2, THEN conjunct2, THEN conjunct2, THEN conjunct2,
      THEN conjunct1]
  have f: "getSettings (fst (setSetting ''theme'' (Some (JStr ''dark'')) storage_empty)) ''fontSize''
     = Some (JNum 16)"
    unfolding fr df by (rule fs)
  show ?thesis
    by (intro conjI) (rule f, rule up, rule df)
qed

subsection \<open>Properties of the recent list\<close>

definition recent_ok :: "recent_entry list \<Rightarrow> bool" where
  "recent_ok xs \<longleftrightarrow> length xs \<le> 10 \<and> distinct (map rid xs)"

lemma getRecent_addToRecent:
  "getRecent (addToRecent stamp nb st) =
     take 10 (\<lparr>rid = nb_id nb, rtitle = nb_title nb, accessedAt = stamp\<rparr>
              # filter (\<lambda>r. rid r \<noteq> nb_id nb) (getRecent st))"
  by (simp add: addToRecent_def getRecent_def Let_def)

lemma getRecent_storage_empty: "getRecent storage_empty = []"
  by (simp add: getRecent_def storage_empty_def)

lemma distinct_rid_take_filter:
  "distinct (map rid xs) \<Longrightarrow> distinct (map rid (take n (filter P xs)))"
  by (simp add: distinct_map_filter distinct_take take_map [symmetric])

lemma rid_take_filter_other:
  "i \<notin> rid ` set (take n (filter (\<lambda>r. rid r \<noteq> i) xs))"
proof
  assume "i \<in> rid ` set (take n (filter (\<lambda>r. rid r \<noteq> i) xs))"
  then obtain r where "r \<in> set (take n (filter (\<lambda>r. rid r \<noteq> i) xs))" "rid r = i"
    by auto
  moreover have "set (take n (filter (\<lambda>r. rid r \<noteq> i) xs)) \<subseteq> set (filter (\<lambda>r. rid r \<noteq> i) xs)"
    by (rule set_take_subset)
  ultimately show False by auto
qed

text \<open>
  Claim C9. After \<open>addToRecent(notebook)\<close> the recent list has at most 10 entries, its
  first entry is the notebook just added, that id occurs exactly once, the entries after
  the first are the earlier entries with other ids in their earlier order (cut to nine),
  and no two entries share an id provided none did before; the list of an empty store
  satisfies the invariant, so it holds after every call.
\<close>

theorem addToRecent_invariant:
  "length (getRecent (addToRecent stamp nb st)) \<le> 10 \<and>
   getRecent (addToRecent stamp nb st) \<noteq> [] \<and>
   hd (getRecent (addToRecent stamp nb st)) =
     \<lparr>rid = nb_id nb, rtitle = nb_title nb, accessedAt = stamp\<rparr> \<and>
   length (filter (\<lambda>r. rid r = nb_id nb) (getRecent (addToRecent stamp nb st))) = 1 \<and>
   tl (getRecent (addToRecent stamp nb st)) =
     take 9 (filter (\<lambda>r. rid r \<noteq> nb_id nb) (getRecent st)) \<and>
   (recent_ok (getRecent st) \<longrightarrow> recent_ok (getRecent (addToRecent stamp nb st))) \<and>
   recent_ok (getRecent storage_empty)"
proof -
  let ?e = "\<lparr>rid = nb_id nb, rtitle = nb_title nb, accessedAt = stamp\<rparr>"
  let ?rest = "take 9 (filter (\<lambda>r. rid r \<noteq> nb_id nb) (getRecent st))"
  have shape: "getRecent (addToRecent stamp nb st) = ?e # ?rest"
    by (simp add: getRecent_addToRecent numeral_eq_Suc)
  have none: "filter (\<lambda>r. rid r = nb_id nb) ?rest = []"
    using rid_take_filter_other [of "nb_id nb" 9 "getRecent st"]
    by (force simp add: filter_empty_conv image_iff)
  have fresh: "nb_id nb \<notin> rid ` set ?rest"
    by (rule rid_take_filter_other)
  have keep: "recent_ok (getRecent st) \<longrightarrow> recent_ok (?e # ?rest)"
    using fresh by (simp add: recent_ok_def distinct_rid_take_filter)
  have base: "recent_ok (getRecent storage_empty)"
    by (simp add: recent_ok_def getRecent_storage_empty)
  show ?thesis
    unfolding shape using none keep base by simp
qed

theorem addToRecent_invariant_witness:
  "recent_ok (getRecent storage_empty) \<and>
   recent_ok (getRecent (addToRecent ''t1'' \<lparr>nb_id = ''welcome'', nb_title = ''Welcome''\<rparr> storage_empty)) \<and>
   getRecent (addToRecent ''t3'' \<lparr>nb_id = ''welcome'', nb_title = ''Welcome''\<rparr>
     (addToRecent ''t2'' \<lparr>nb_id = ''guide'', nb_title = ''Guide''\<rparr>
       (addToRecent ''t1'' \<lparr>nb_id = ''welcome'', nb_title = ''Welcome''\<rparr> storage_empty))) =
     [\<lparr>rid = ''welcome'', rtitle = ''Welcome'', accessedAt = ''t3''\<rparr>,
      \<lparr>rid = ''guide'', rtitle = ''Guide'', accessedAt = ''t2''\<rparr>]"
proof -
  note t = addToRecent_invariant [of "''t1''" "\<lparr>nb_id = ''welcome'', nb_title = ''Welcome''\<rparr>" storage_empty]
  have base: "recent_ok (getRecent storage_empty)"
    using t by (elim conjE)
  have step: "recent_ok (getRecent storage_empty) \<longrightarrow>
      recent_ok (getRecent (addToRecent ''t1'' \<lparr>nb_id = ''welcome'', nb_title = ''Welcome''\<rparr> storage_empty))"
    using t by (elim conjE)
  have ex: "getRecent (addToRecent ''t3'' \<lparr>nb_id = ''welcome'', nb_title = ''Welcome''\<rparr>
     (addToRecent ''t2'' \<lparr>nb_id = ''guide'', nb_title = ''Guide''\<rparr>
       (addToRecent ''t1'' \<lparr>nb_id = ''welcome'', nb_title = ''Welcome''\<rparr> storage_empty))) =
     [\<lparr>rid = ''welcome'', rtitle = ''Welcome'', accessedAt = ''t3''\<rparr>,
      \<lparr>rid = ''guide'', rtitle = ''Guide'', accessedAt = ''t2''\<rparr>]"
    by (simp add: getRecent_addToRecent getRecent_storage_empty)
  from base step ex show ?thesis by (intro conjI) (simp_all only: simp_thms)
qed

section \<open>Strings\<close>

text \<open>
  The white space of \<open>String.prototype.trim\<close> and of the regular expression class
  \<open>\s\<close>, among the code units below 256: tab, line feed, vertical tab, form feed,
  carriage return, space and no-break space.
\<close>

definition js_whitespace :: "char \<Rightarrow> bool" where
  "js_whitespace c \<longleftrightarrow> (of_char c :: nat) \<in> {9, 10, 11, 12, 13, 32, 160}"

definition js_trim :: "string \<Rightarrow> string" where
  "js_trim s = rev (dropWhile js_whitespace (rev (dropWhile js_whitespace s)))"

text \<open>The decimal digits of a number, as string concatenation with a number gives.\<close>

definition digit_char :: "nat \<Rightarrow> char" where
  "digit_char d = ''0123456789'' ! d"

fun show_nat :: "nat \<Rightarrow> string" where
  "show_nat n = (if n < 10 then [digit_char n] else show_nat (n div 10) @ [digit_char (n mod 10)])"

declare show_nat.simps [simp del]

section \<open>Editor: saving the draft\<close>

text \<open>
  The module variables \<open>textarea\<close> (null, or the element with its \<open>value\<close>) and
  \<open>currentDraftId\<close> (null or a string).
\<close>

record editor =
  textarea :: "string option"
  currentDraftId :: "string option"

text \<open>
  \<open>Editor.saveDraft()\<close>. \<open>extractTitle\<close> is \<open>Markdown.extractTitle\<close>, \<open>now\<close> is
  \<open>Date.now()\<close> and \<open>stamp\<close> the time stamp that \<open>Storage.saveDraft\<close> writes.
  \<open>!currentDraftId\<close> holds for null and for the empty string.
\<close>

definition editor_saveDraft ::
  "(string \<Rightarrow> string) \<Rightarrow> nat \<Rightarrow> string \<Rightarrow> editor \<times> storage \<Rightarrow> editor \<times> storage" where
  "editor_saveDraft extractTitle now stamp s =
     (case s of (ed, st) \<Rightarrow>
        (case textarea ed of
           None \<Rightarrow> (ed, st)
         | Some text \<Rightarrow>
             if js_trim text = [] then (ed, st)
             else
               let ttl = extractTitle text;
                   ident = (case currentDraftId ed of
                              None \<Rightarrow> ''draft_'' @ show_nat now
                            | Some i \<Rightarrow> if i = [] then ''draft_'' @ show_nat now else i)
               in (ed\<lparr>currentDraftId := Some ident\<rparr>,
                   saveDraft stamp ident text (Some ttl) st)))"

lemma js_trim_blank:
  assumes "\<forall>c \<in> set s. js_whitespace c"
  shows "js_trim s = []"
proof -
  from assms have d: "dropWhile js_whitespace s = []"
    by (induction s) simp_all
  show ?thesis unfolding js_trim_def d by simp
qed

lemma js_trim_not_blank:
  assumes "c \<in> set s" and "\<not> js_whitespace c"
  shows "js_trim s \<noteq> []"
proof -
  let ?d = "dropWhile js_whitespace s"
  from assms have ne: "?d \<noteq> []"
    by (auto simp add: dropWhile_eq_Nil_conv)
  then have "\<not> js_whitespace (hd ?d)" by (rule hd_dropWhile)
  moreover from ne have "hd ?d \<in> set (rev ?d)" by simp
  ultimately have "dropWhile js_whitespace (rev ?d) \<noteq> []"
    by (auto simp add: dropWhile_eq_Nil_conv)
  then show ?thesis by (simp add: js_trim_def)
qed

text \<open>
  Claim C10. When the textarea is empty or holds only white space, \<open>Editor.saveDraft\<close>
  changes nothing: the editor keeps its \<open>currentDraftId\<close> and the storage keeps its
  drafts.
\<close>

theorem editor_saveDraft_blank:
  assumes "textarea ed = Some text" and "\<forall>c \<in> set text. js_whitespace c"
  shows "editor_saveDraft extractTitle now stamp (ed, st) = (ed, st)"
  using assms by (simp add: editor_saveDraft_def js_trim_blank)

theorem editor_saveDraft_blank_witness:
  "editor_saveDraft (\<lambda>t. ''Untitled'') 1700000000000 ''2023-11-14T22:13:20.000Z''
     (\<lparr>textarea = Some [CHR '' '', CHR 0x0A, CHR 0x09], currentDraftId = None\<rparr>, storage_empty)
   = (\<lparr>textarea = Some [CHR '' '', CHR 0x0A, CHR 0x09], currentDraftId = None\<rparr>, storage_empty)"
proof -
  have ws: "\<forall>c \<in> set [CHR '' '', CHR 0x0A, CHR 0x09]. js_whitespace c"
    by (simp add: js_whitespace_def)
  have ta: "textarea \<lparr>textarea = Some [CHR '' '', CHR 0x0A, CHR 0x09], currentDraftId = None\<rparr>
      = Some [CHR '' '', CHR 0x0A, CHR 0x09]"
    by simp
  show ?thesis
    by (rule editor_saveDraft_blank [OF ta ws])
qed


text \<open>On content that is not blank a draft is stored, under a fresh id when the editor
  had none.\<close>

lemma editor_saveDraft_stores:
  "editor_saveDraft (\<lambda>t. ''Note'') 1700000000000 ''s''
     (\<lparr>textarea = Some ''# Note'', currentDraftId = None\<rparr>, storage_empty)
   = (\<lparr>textarea = Some ''# Note'', currentDraftId = Some ''draft_1700000000000''\<rparr>,
      saveDraft ''s'' ''draft_1700000000000'' ''# Note'' (Some ''Note'') storage_empty)"
proof -
  have "show_nat 1700000000000 = ''1700000000000''"
    by (simp add: show_nat.simps digit_char_def)
  moreover have "js_trim ''# Note'' \<noteq> []"
    by (rule js_trim_not_blank [of "CHR ''#''"]) (simp_all add: js_whitespace_def)
  ultimately show ?thesis
    by (simp add: editor_saveDraft_def Let_def)
qed

section \<open>Auth: the password check\<close>

text \<open>
  \<open>sha256(message)\<close>: the bytes of the digest, each written with
  \<open>b.toString(16).padStart(2, '0')\<close> and joined. \<open>digest\<close> stands for
  \<open>crypto.subtle.digest('SHA-256', new TextEncoder().encode(message))\<close> read as an
  array of bytes.
\<close>

definition hex_digit :: "nat \<Rightarrow> char" where
  "hex_digit d = ''0123456789abcdef'' ! d"

fun toString16 :: "nat \<Rightarrow> string" where
  "toString16 n = (if n < 16 then [hex_digit n] else toString16 (n div 16) @ [hex_digit (n mod 16)])"

declare toString16.simps [simp del]

definition padStart2 :: "string \<Rightarrow> string" where
  "padStart2 s = replicate (2 - length s) (CHR ''0'') @ s"

definition sha256 :: "(string \<Rightarrow> nat list) \<Rightarrow> string \<Rightarrow> string" where
  "sha256 digest message = concat (map (\<lambda>b. padStart2 (toString16 b)) (digest message))"

definition DEFAULT_PASSWORD_HASH :: string where
  "DEFAULT_PASSWORD_HASH = ''d950113d83977940d0160cdc6f59edd3da64ac03b4f7cd896a27921a45cd8fb4''"

text \<open>
  The two browser items the module uses: \<open>moleskine_password_hash\<close> in \<open>localStorage\<close>
  and \<open>moleskine_auth\<close> in \<open>sessionStorage\<close>; \<open>None\<close> is a key that is not set.
\<close>

record auth_store =
  password_hash :: "string option"
  session_auth :: "string option"

text \<open>\<open>localStorage.getItem(HASH_KEY) || DEFAULT_PASSWORD_HASH\<close>: null and the empty
  string are falsy.\<close>

definition getPasswordHash :: "auth_store \<Rightarrow> string" where
  "getPasswordHash st =
     (case password_hash st of
        None \<Rightarrow> DEFAULT_PASSWORD_HASH
      | Some h \<Rightarrow> if h = [] then DEFAULT_PASSWORD_HASH else h)"

definition setPassword :: "(string \<Rightarrow> nat list) \<Rightarrow> string \<Rightarrow> auth_store \<Rightarrow> auth_store \<times> bool" where
  "setPassword digest newPassword st =
     (let hash = sha256 digest newPassword
      in (st\<lparr>password_hash := Some hash\<rparr>, True))"

definition isAuthenticated :: "auth_store \<Rightarrow> bool" where
  "isAuthenticated st \<longleftrightarrow> session_auth st = Some ''true''"

definition login :: "(string \<Rightarrow> nat list) \<Rightarrow> string \<Rightarrow> auth_store \<Rightarrow> auth_store \<times> bool" where
  "login digest password st =
     (let inputHash = sha256 digest password;
          storedHash = getPasswordHash st
      in if inputHash = storedHash
         then (st\<lparr>session_auth := Some ''true''\<rparr>, True)
         else (st, False))"

text \<open>
  The stored hash as the claim words it: the value under the key, or the default when
  none is stored. \<open>getPasswordHash\<close> takes an empty value under the key for none: the
  empty string is falsy, it is not a hash, and \<open>setPassword\<close>, the one writer of the key,
  stores a digest.
\<close>

definition stored_hash_spec :: "auth_store \<Rightarrow> string" where
  "stored_hash_spec st =
     (case password_hash st of None \<Rightarrow> DEFAULT_PASSWORD_HASH | Some h \<Rightarrow> h)"

text \<open>The 32 bytes of the SHA-256 digest of the default password \<open>moleskine\<close>.\<close>

definition moleskine_digest :: "nat list" where
  "moleskine_digest =
     [0xd9, 0x50, 0x11, 0x3d, 0x83, 0x97, 0x79, 0x40, 0xd0, 0x16, 0x0c, 0xdc, 0x6f, 0x59,
      0xed, 0xd3, 0xda, 0x64, 0xac, 0x03, 0xb4, 0xf7, 0xcd, 0x89, 0x6a, 0x27, 0x92, 0x1a,
      0x45, 0xcd, 0x8f, 0xb4]"

lemma sha256_moleskine: "sha256 (\<lambda>m. moleskine_digest) ''moleskine'' = DEFAULT_PASSWORD_HASH"
  by (simp add: sha256_def moleskine_digest_def toString16.simps hex_digit_def padStart2_def
      DEFAULT_PASSWORD_HASH_def)

lemma getPasswordHash_stored:
  "password_hash st \<noteq> Some [] \<Longrightarrow> getPasswordHash st = stored_hash_spec st"
  by (simp add: getPasswordHash_def stored_hash_spec_def split: option.splits)

lemma setPassword_stores_digest:
  "password_hash (fst (setPassword digest newPassword st)) = Some (sha256 digest newPassword)"
  by (simp add: setPassword_def Let_def)

text \<open>
  Claim C4. \<open>login(password)\<close> returns true exactly when the lowercase-hex digest of the
  password equals the stored hash: the value under \<open>moleskine_password_hash\<close>, or the
  built-in default hash when none is stored (an empty value under the key counts as none,
  first conjunct; with any other store the stored hash is \<open>stored_hash_spec\<close>, last
  conjunct). On success the session item is set to \<open>true\<close>, so the session is
  authenticated, and nothing else changes; on failure the state is unchanged.
\<close>

theorem login_iff_hash_matches:
  "snd (login digest password st) =
     (sha256 digest password =
        (case password_hash st of
           None \<Rightarrow> DEFAULT_PASSWORD_HASH
         | Some h \<Rightarrow> if h = [] then DEFAULT_PASSWORD_HASH else h)) \<and>
   (snd (login digest password st) \<longrightarrow>
      isAuthenticated (fst (login digest password st)) \<and>
      fst (login digest password st) = st\<lparr>session_auth := Some ''true''\<rparr>) \<and>
   (\<not> snd (login digest password st) \<longrightarrow> fst (login digest password st) = st) \<and>
   (password_hash st \<noteq> Some [] \<longrightarrow>
      snd (login digest password st) = (sha256 digest password = stored_hash_spec st))"
  by (auto simp add: login_def getPasswordHash_def isAuthenticated_def stored_hash_spec_def
      Let_def split: option.splits)

theorem login_iff_hash_matches_witness:
  "snd (login (\<lambda>m. moleskine_digest) ''moleskine'' \<lparr>password_hash = None, session_auth = None\<rparr>) \<and>
   isAuthenticated
     (fst (login (\<lambda>m. moleskine_digest) ''moleskine'' \<lparr>password_hash = None, session_auth = None\<rparr>)) \<and>
   \<not> snd (login (\<lambda>m. []) ''guess'' \<lparr>password_hash = None, session_auth = None\<rparr>) \<and>
   fst (login (\<lambda>m. []) ''guess'' \<lparr>password_hash = None, session_auth = None\<rparr>)
     = \<lparr>password_hash = None, session_auth = None\<rparr> \<and>
   password_hash \<lparr>password_hash = Some ''ab01'', session_auth = None\<rparr> \<noteq> Some [] \<and>
   snd (login (\<lambda>m. [0xab, 0x01]) ''secret'' \<lparr>password_hash = Some ''ab01'', session_auth = None\<rparr>) \<and>
   \<not> snd (login (\<lambda>m. moleskine_digest) ''moleskine''
           \<lparr>password_hash = Some ''ab01'', session_auth = None\<rparr>)"
proof -
  let ?st = "\<lparr>password_hash = None, session_auth = None\<rparr>"
  let ?set = "\<lparr>password_hash = Some ''ab01'', session_auth = None\<rparr>"
  note a = login_iff_hash_matches [of "\<lambda>m. moleskine_digest" "''moleskine''" ?st]
  note b = login_iff_hash_matches [of "\<lambda>m. []" "''guess''" ?st]
  note c = login_iff_hash_matches [of "\<lambda>m. [0xab, 0x01]" "''secret''" ?set]
  note d = login_iff_hash_matches [of "\<lambda>m. moleskine_digest" "''moleskine''" ?set]
  have ok: "snd (login (\<lambda>m. moleskine_digest) ''moleskine'' ?st)"
    unfolding a [THEN conjunct1] by (simp add: sha256_moleskine)
  have no: "\<not> snd (login (\<lambda>m. []) ''guess'' ?st)"
    unfolding b [THEN conjunct1] by (simp add: sha256_def DEFAULT_PASSWORD_HASH_def)
  from a [THEN conjunct2, THEN conjunct1, rule_format, OF ok]
  have au: "isAuthenticated (fst (login (\<lambda>m. moleskine_digest) ''moleskine'' ?st))"
    by (rule conjunct1)
  from b [THEN conjunct2, THEN conjunct2, THEN conjunct1, rule_format, OF no]
  have un: "fst (login (\<lambda>m. []) ''guess'' ?st) = ?st" .
  have ne: "password_hash ?set \<noteq> Some []"
    by simp
  have sp: "stored_hash_spec ?set = ''ab01''"
    by (simp add: stored_hash_spec_def)
  have h1: "sha256 (\<lambda>m. [0xab, 0x01]) ''secret'' = ''ab01''"
    by (simp add: sha256_def toString16.simps hex_digit_def padStart2_def)
  have h2: "sha256 (\<lambda>m. moleskine_digest) ''moleskine'' \<noteq> ''ab01''"
    by (simp add: sha256_moleskine DEFAULT_PASSWORD_HASH_def)
  have yes: "snd (login (\<lambda>m. [0xab, 0x01]) ''secret'' ?set)"
    unfolding c [THEN conjunct2, THEN conjunct2, THEN conjunct2, rule_format, OF ne] sp
    by (rule h1)
  have wrong: "\<not> snd (login (\<lambda>m. moleskine_digest) ''moleskine'' ?set)"
    unfolding d [THEN conjunct2, THEN conjunct2, THEN conjunct2, rule_format, OF ne] sp
    by (rule h2)
  show ?thesis
    by (intro conjI) (rule ok, rule au, rule no, rule un, rule ne, rule yes, rule wrong)
qed

section \<open>GitHub: reading a file\<close>

text \<open>\<open>s.includes(sub)\<close>.\<close>

fun js_includes :: "string \<Rightarrow> string \<Rightarrow> bool" where
  "js_includes [] sub = (sub = [])"
| "js_includes (c # cs) sub = (take (length sub) (c # cs) = sub \<or> js_includes cs sub)"

text \<open>
  What the request to \<open>https://api.github.com/repos/.../contents/<path>?ref=<branch>\<close>
  comes back with:
  \<^item> \<open>fetch\<close> rejects, with the message of its error;
  \<^item> a response that is not \<open>ok\<close>, with its status and the \<open>message\<close> of its JSON body,
    an object; \<open>None\<close> when the body is not JSON (the code then takes \<open>{}\<close>) or has no
    message or an empty one;
  \<^item> an \<open>ok\<close> response whose \<open>json()\<close> rejects with a message, or gives the file data.
\<close>

record file_data =
  data_content :: string
  data_sha :: string
  data_path :: string

datatype fetch_result =
    NetworkError string
  | ErrorResponse nat "string option"
  | OkResponse "string + file_data"

text \<open>An exception is the \<open>message\<close> of the thrown error (\<open>Inl\<close>).\<close>

definition apiRequest :: "string option \<Rightarrow> fetch_result \<Rightarrow> string + file_data" where
  "apiRequest token res =
     (if token = None \<or> token = Some [] then Inl ''GitHub token not configured''
      else
        case res of
          NetworkError msg \<Rightarrow> Inl msg
        | ErrorResponse status message \<Rightarrow>
            (case message of
               Some m \<Rightarrow> Inl m
             | None \<Rightarrow> Inl (''GitHub API error: '' @ show_nat status))
        | OkResponse r \<Rightarrow> r)"

record repo_file =
  file_content :: string
  file_sha :: string
  file_path :: string

text \<open>
  \<open>getFile(path)\<close>; \<open>atob\<close> decodes base64 or throws. The \<open>try\<close> covers the request
  and the decoding; the handler returns null (\<open>Inr None\<close>) when the message of the error
  includes \<open>404\<close> and throws the error again otherwise.
\<close>

definition getFile ::
  "(string \<Rightarrow> string + string) \<Rightarrow> string option \<Rightarrow> fetch_result \<Rightarrow> string + repo_file option" where
  "getFile atob token res =
     (let handler = (\<lambda>msg. if js_includes msg ''404'' then Inr None else Inl msg)
      in case apiRequest token res of
           Inl msg \<Rightarrow> handler msg
         | Inr data \<Rightarrow>
             (case atob (data_content data) of
                Inl msg \<Rightarrow> handler msg
              | Inr decoded \<Rightarrow>
                  Inr (Some \<lparr>file_content = decoded, file_sha = data_sha data,
                             file_path = data_path data\<rparr>)))"

lemma show_nat_404: "show_nat 404 = ''404''"
  by (simp add: show_nat.simps digit_char_def)

text \<open>A 404 response whose body carries no message does give null.\<close>

lemma getFile_404_without_message:
  "getFile atob (Some ''token'') (ErrorResponse 404 None) = Inr None"
  by (simp add: getFile_def apiRequest_def show_nat_404)

text \<open>
  Claim C6 (\<open>getFile\<close> returns null exactly when the API answers 404 and throws for every
  other failure). GitHub answers a missing file with status 404 and the JSON body
  \<open>{"message": "Not Found", ...}\<close>; \<open>apiRequest\<close> throws an error with that message,
  which does not include \<open>404\<close>, so \<open>getFile\<close> throws instead of returning null. In the
  other direction, a failure that is not a 404 but whose message includes \<open>404\<close> is
  reported as a missing file.
\<close>

theorem getFile_not_found_throws:
  "getFile atob (Some ''token'') (ErrorResponse 404 (Some ''Not Found'')) = Inl ''Not Found'' \<and>
   getFile atob (Some ''token'') (ErrorResponse 500 (Some ''upstream returned 404'')) = Inr None"
  by (simp add: getFile_def apiRequest_def)

section \<open>Regular expressions\<close>

text \<open>
  The regular expressions of the program are sequences of literal characters, character
  classes, and greedy repetitions \<open>C+\<close> of a class, captured (\<open>(C+)\<close>) or not. Matching
  is JavaScript's: leftmost, greedy, with backtracking over the length of a repetition.
\<close>

datatype rx = Chr char | One "char \<Rightarrow> bool" | Many "char \<Rightarrow> bool" | Group "char \<Rightarrow> bool"

text \<open>
  \<open>rx_match r s\<close> matches \<open>r\<close> at the start of \<open>s\<close> and returns the captures and the
  rest of \<open>s\<close> after the match. \<open>rx_backtrack\<close> tries a repetition of length \<open>k\<close>,
  then \<open>k - 1\<close>, down to one character.
\<close>

fun rx_match :: "rx list \<Rightarrow> string \<Rightarrow> (string list \<times> string) option"
  and rx_backtrack :: "bool \<Rightarrow> rx list \<Rightarrow> string \<Rightarrow> nat \<Rightarrow> (string list \<times> string) option" where
  "rx_match [] s = Some ([], s)"
| "rx_match (Chr c # rs) s =
     (case s of [] \<Rightarrow> None | x # xs \<Rightarrow> if x = c then rx_match rs xs else None)"
| "rx_match (One P # rs) s =
     (case s of [] \<Rightarrow> None | x # xs \<Rightarrow> if P x then rx_match rs xs else None)"
| "rx_match (Many P # rs) s = rx_backtrack False rs s (length (takeWhile P s))"
| "rx_match (Group P # rs) s = rx_backtrack True rs s (length (takeWhile P s))"
| "rx_backtrack cap rs s 0 = None"
| "rx_backtrack cap rs s (Suc k) =
     (case rx_match rs (drop (Suc k) s) of
        Some (caps, rest) \<Rightarrow> Some (if cap then take (Suc k) s # caps else caps, rest)
      | None \<Rightarrow> rx_backtrack cap rs s k)"

text \<open>
  \<open>s.replace(/r/g, f)\<close>: the matches are sought from left to right, each search
  starting where the match before ended; \<open>f\<close> gets the matched text and the captures.
  The counter is the number of characters of the current match still to be skipped. After
  an empty match the next character is copied and the search goes on behind it.
\<close>

fun replace_from :: "rx list \<Rightarrow> (string \<Rightarrow> string list \<Rightarrow> string) \<Rightarrow> nat \<Rightarrow> string \<Rightarrow> string" where
  "replace_from r f (Suc k) (c # cs) = replace_from r f k cs"
| "replace_from r f (Suc k) [] = []"
| "replace_from r f 0 [] =
     (case rx_match r [] of Some (caps, rest) \<Rightarrow> f [] caps | None \<Rightarrow> [])"
| "replace_from r f 0 (c # cs) =
     (case rx_match r (c # cs) of
        None \<Rightarrow> c # replace_from r f 0 cs
      | Some (caps, rest) \<Rightarrow>
          (let n = length (c # cs) - length rest
           in if n = 0 then f [] caps @ c # replace_from r f 0 cs
              else f (take n (c # cs)) caps @ replace_from r f (n - 1) cs))"

definition js_replace :: "rx list \<Rightarrow> (string \<Rightarrow> string list \<Rightarrow> string) \<Rightarrow> string \<Rightarrow> string" where
  "js_replace r f s = replace_from r f 0 s"

text \<open>\<open>\w\<close> is \<open>[A-Za-z0-9_]\<close>; \<open>\s\<close> is \<open>js_whitespace\<close>.\<close>

definition word_char :: "char \<Rightarrow> bool" where
  "word_char c \<longleftrightarrow>
     (let n = of_char c :: nat
      in (48 \<le> n \<and> n \<le> 57) \<or> (65 \<le> n \<and> n \<le> 90) \<or> n = 95 \<or> (97 \<le> n \<and> n \<le> 122))"

text \<open>
  \<open>toLowerCase()\<close> on code units below 256: the letters A-Z and the Latin-1 capitals
  U+00C0..U+00DE, without the multiplication sign U+00D7, move up by 32.
\<close>

definition lower_char :: "char \<Rightarrow> char" where
  "lower_char c =
     (let n = of_char c :: nat
      in if (65 \<le> n \<and> n \<le> 90) \<or> (192 \<le> n \<and> n \<le> 222 \<and> n \<noteq> 215)
         then char_of (n + 32) else c)"

definition toLowerCase :: "string \<Rightarrow> string" where
  "toLowerCase s = map lower_char s"

section \<open>GitHub: the id of a new notebook\<close>

text \<open>
  The id computed by \<open>createNotebook\<close>:
  \<open>title.toLowerCase().replace(/[^\w\s-]/g, '').replace(/\s+/g, '-').substring(0, 50)\<close>.
\<close>

definition notebook_id :: "string \<Rightarrow> string" where
  "notebook_id ttl =
     take 50
       (js_replace [Many js_whitespace] (\<lambda>m caps. ''-'')
          (js_replace [One (\<lambda>c. \<not> (word_char c \<or> js_whitespace c \<or> c = CHR ''-''))]
             (\<lambda>m caps. [])
             (toLowerCase ttl)))"

record created_notebook =
  created_id :: string
  created_title :: string
  created_content :: string

text \<open>
  \<open>createNotebook(title, initialContent = '')\<close>. \<open>save\<close> is the outcome of
  \<open>await saveNotebook(id, content, title, [])\<close>, which writes two files through the
  GitHub API and throws when a request fails.
\<close>

definition createNotebook ::
  "(string \<Rightarrow> string \<Rightarrow> string \<Rightarrow> string list \<Rightarrow> string + unit) \<Rightarrow> string \<Rightarrow> string
     \<Rightarrow> string + created_notebook" where
  "createNotebook save ttl initialContent =
     (let ident = notebook_id ttl;
          text = (if initialContent = [] then ''# '' @ ttl @ [CHR 0x0A, CHR 0x0A] @ ''Start writing here...'' @ [CHR 0x0A]
                  else initialContent)
      in case save ident text ttl [] of
           Inl err \<Rightarrow> Inl err
         | Inr u \<Rightarrow> Inr \<lparr>created_id = ident, created_title = ttl, created_content = text\<rparr>)"

subsection \<open>The slug as the specification words it\<close>

text \<open>
  Replacing each maximal run of white space by one hyphen: a hyphen is written where a
  run starts, and the further characters of the run are dropped. The flag tells whether
  the character before belonged to a run.
\<close>

fun hyphenate :: "bool \<Rightarrow> string \<Rightarrow> string" where
  "hyphenate in_run [] = []"
| "hyphenate in_run (c # cs) =
     (if js_whitespace c
      then (if in_run then hyphenate True cs else CHR ''-'' # hyphenate True cs)
      else c # hyphenate False cs)"

definition slug_spec :: "string \<Rightarrow> string" where
  "slug_spec ttl =
     take 50
       (hyphenate False
          (filter (\<lambda>c. word_char c \<or> js_whitespace c \<or> c = CHR ''-'')
             (map lower_char ttl)))"

subsection \<open>The regular expressions compute the slug\<close>

lemma replace_from_skip:
  "k \<le> length s \<Longrightarrow> replace_from r f k s = replace_from r f 0 (drop k s)"
proof (induction s arbitrary: k)
  case Nil
  then show ?case by simp
next
  case (Cons c cs)
  then show ?case by (cases k) simp_all
qed

lemma rx_match_One: "rx_match [One P] (c # cs) = (if P c then Some ([], cs) else None)"
  by simp

lemma replace_One_delete:
  "replace_from [One P] (\<lambda>m caps. []) 0 s = filter (\<lambda>c. \<not> P c) s"
  by (induction s) simp_all

lemma rx_match_Many:
  "rx_match [Many P] s =
     (if takeWhile P s = [] then None else Some ([], dropWhile P s))"
proof (cases "length (takeWhile P s)")
  case 0
  then show ?thesis by simp
next
  case (Suc k)
  have "drop (length (takeWhile P s)) s = dropWhile P s"
    by (metis append_eq_conv_conj takeWhile_dropWhile_id)
  with Suc show ?thesis by auto
qed

lemma hyphenate_in_run: "hyphenate True s = hyphenate False (dropWhile js_whitespace s)"
  by (induction s) simp_all

lemma replace_Many_hyphenate:
  "replace_from [Many js_whitespace] (\<lambda>m caps. ''-'') 0 s = hyphenate False s"
proof (induction s rule: length_induct)
  case (1 s)
  show ?case
  proof (cases s)
    case Nil
    then show ?thesis by simp
  next
    case (Cons c cs)
    show ?thesis
    proof (cases "js_whitespace c")
      case False
      with Cons 1 show ?thesis by (simp add: rx_match_Many)
    next
      case True
      let ?n = "length (takeWhile js_whitespace cs)"
      have len: "length (dropWhile js_whitespace cs) = length cs - ?n"
        by (metis length_drop append_eq_conv_conj takeWhile_dropWhile_id)
      have le: "?n \<le> length cs"
        by (rule length_takeWhile_le)
      have dr: "drop ?n cs = dropWhile js_whitespace cs"
        by (metis append_eq_conv_conj takeWhile_dropWhile_id)
      have ih: "replace_from [Many js_whitespace] (\<lambda>m caps. ''-'') 0 (dropWhile js_whitespace cs)
          = hyphenate False (dropWhile js_whitespace cs)"
        using 1 Cons by (simp add: length_dropWhile_le le_imp_less_Suc)
      have m: "rx_match [Many js_whitespace] (c # cs) = Some ([], dropWhile js_whitespace cs)"
        using True by (simp only: rx_match_Many) simp
      have n: "length (c # cs) - length (dropWhile js_whitespace cs) = Suc ?n"
        using len le by simp
      have "replace_from [Many js_whitespace] (\<lambda>m caps. ''-'') 0 (c # cs)
          = CHR ''-'' # replace_from [Many js_whitespace] (\<lambda>m caps. ''-'') ?n cs"
        by (simp only: replace_from.simps m option.case prod.case Let_def n) simp
      also have "\<dots> = CHR ''-'' # hyphenate False (dropWhile js_whitespace cs)"
        by (simp only: replace_from_skip [OF le] dr ih)
      also have "\<dots> = hyphenate False (c # cs)"
        using True by (simp add: hyphenate_in_run)
      finally show ?thesis using Cons by simp
    qed
  qed
qed

lemma notebook_id_slug: "notebook_id ttl = slug_spec ttl"
  by (simp add: notebook_id_def slug_spec_def js_replace_def replace_One_delete
      replace_Many_hyphenate toLowerCase_def)

text \<open>
  Claim C8. \<open>createNotebook(title, initialContent)\<close> computes the id of the notebook by
  lowercasing the title, deleting every character that is not a word character, white
  space or a hyphen, replacing each maximal run of white space by one hyphen, and cutting
  the result to at most 50 characters; this id is passed to \<open>saveNotebook\<close> and is the id
  of the notebook returned.
\<close>

theorem createNotebook_id_is_slug:
  "notebook_id ttl = slug_spec ttl \<and>
   length (notebook_id ttl) \<le> 50 \<and>
   (\<forall>nb. createNotebook save ttl initialContent = Inr nb \<longrightarrow> created_id nb = slug_spec ttl) \<and>
   (\<forall>err. save (slug_spec ttl)
             (if initialContent = [] then ''# '' @ ttl @ [CHR 0x0A, CHR 0x0A] @ ''Start writing here...'' @ [CHR 0x0A]
              else initialContent) ttl [] = Inl err \<longrightarrow>
          createNotebook save ttl initialContent = Inl err)"
proof -
  have a: "notebook_id ttl = slug_spec ttl"
    by (rule notebook_id_slug)
  have b: "length (notebook_id ttl) \<le> 50"
    by (simp add: notebook_id_def)
  have c: "\<forall>nb. createNotebook save ttl initialContent = Inr nb \<longrightarrow> created_id nb = slug_spec ttl"
    unfolding a [symmetric]
    by (auto simp add: createNotebook_def Let_def split: sum.splits)
  have d: "\<forall>err. save (slug_spec ttl)
             (if initialContent = [] then ''# '' @ ttl @ [CHR 0x0A, CHR 0x0A] @ ''Start writing here...'' @ [CHR 0x0A]
              else initialContent) ttl [] = Inl err \<longrightarrow>
          createNotebook save ttl initialContent = Inl err"
    unfolding a [symmetric]
    by (simp add: createNotebook_def Let_def)
  from a b c d show ?thesis by (intro conjI)
qed

lemma slug_spec_example: "slug_spec ''Hello,  World!'' = ''hello-world''"
  by code_simp

theorem createNotebook_id_is_slug_witness:
  "notebook_id ''Hello,  World!'' = ''hello-world'' \<and>
   (\<exists>nb. createNotebook (\<lambda>i c t g. Inr ()) ''Hello,  World!'' [] = Inr nb \<and>
         created_id nb = ''hello-world'')"
proof -
  note t = createNotebook_id_is_slug [of "''Hello,  World!''" "\<lambda>i c t g. Inr ()" "[]"]
  have a: "notebook_id ''Hello,  World!'' = ''hello-world''"
    using t [THEN conjunct1] by (simp only: slug_spec_example)
  obtain nb where nb: "createNotebook (\<lambda>i c t g. Inr ()) ''Hello,  World!'' [] = Inr nb"
    by (simp add: createNotebook_def Let_def)
  from t [THEN conjunct2, THEN conjunct2, THEN conjunct1, rule_format, OF nb]
  have "created_id nb = ''hello-world''"
    by (simp only: slug_spec_example)
  with a nb show ?thesis by blast
qed

section \<open>Markdown: parsing and the math transform\<close>

text \<open>
  The two libraries the module looks for: \<open>marked\<close>, of which \<open>marked.parse\<close> is used,
  and \<open>katex\<close>, of which \<open>katex.renderToString(tex, {displayMode, throwOnError: false})\<close>
  is used; a rendering of \<open>None\<close> is a call that throws. \<open>None\<close> for a library means
  \<open>typeof lib === 'undefined'\<close>.
\<close>

record libraries =
  marked :: "(string \<Rightarrow> string) option"
  katex :: "(string \<Rightarrow> bool \<Rightarrow> string option) option"

text \<open>
  \<open>escapeHtml(text)\<close>: the text becomes the \<open>textContent\<close> of a fresh element, whose
  \<open>innerHTML\<close> is read back; serialising a text node escapes the ampersand, the
  no-break space and the angle brackets.
\<close>

definition escape_char :: "char \<Rightarrow> string" where
  "escape_char c =
     (if c = CHR ''&'' then ''&amp;''
      else if (of_char c :: nat) = 160 then ''&nbsp;''
      else if c = CHR ''<'' then ''&lt;''
      else if c = CHR ''>'' then ''&gt;''
      else [c])"

definition escapeHtml :: "string \<Rightarrow> string" where
  "escapeHtml text = concat (map escape_char text)"

text \<open>\<open>/\$\$([^$]+)\$\$/g\<close> and \<open>/\$([^$\n]+)\$/g\<close>.\<close>

definition block_rx :: "rx list" where
  "block_rx = [Chr (CHR ''$''), Chr (CHR ''$''), Group (\<lambda>c. c \<noteq> CHR ''$''),
               Chr (CHR ''$''), Chr (CHR ''$'')]"

definition inline_rx :: "rx list" where
  "inline_rx = [Chr (CHR ''$''), Group (\<lambda>c. c \<noteq> CHR ''$'' \<and> c \<noteq> CHR 0x0A), Chr (CHR ''$'')]"

text \<open>
  The replacement function \<open>(match, math) => { try { return katex.renderToString(
  math.trim(), ...) } catch (e) { return match } }\<close>.
\<close>

definition render_math :: "(string \<Rightarrow> bool \<Rightarrow> string option) \<Rightarrow> bool \<Rightarrow> string \<Rightarrow> string list \<Rightarrow> string" where
  "render_math render displayMode whole caps =
     (case caps of
        [] \<Rightarrow> whole
      | math # others \<Rightarrow>
          (case render (js_trim math) displayMode of Some h \<Rightarrow> h | None \<Rightarrow> whole))"

definition processMath :: "(string \<Rightarrow> bool \<Rightarrow> string option) option \<Rightarrow> string \<Rightarrow> string" where
  "processMath kt html =
     (case kt of
        None \<Rightarrow> html
      | Some render \<Rightarrow>
          (let html1 = js_replace block_rx (render_math render True) html;
               html2 = js_replace inline_rx (render_math render False) html1
           in html2))"

definition parse :: "libraries \<Rightarrow> string \<Rightarrow> string" where
  "parse libs markdown =
     (case marked libs of
        None \<Rightarrow> escapeHtml markdown
      | Some marked_parse \<Rightarrow>
          (let html = marked_parse markdown
           in processMath (katex libs) html))"

subsection \<open>The math transform as the specification words it\<close>

text \<open>
  A delimited span at the start of \<open>s\<close>: the delimiter, then a non-empty run of
  characters of the class \<open>inside\<close> that ends where the class ends, then the delimiter
  again. The result is the contents and the text behind the span.
\<close>

definition span_at :: "string \<Rightarrow> (char \<Rightarrow> bool) \<Rightarrow> string \<Rightarrow> (string \<times> string) option" where
  "span_at delim inside s =
     (let contents = takeWhile inside (drop (length delim) s);
          behind = drop (length delim + length contents) s
      in if take (length delim) s = delim \<and> contents \<noteq> [] \<and> take (length delim) behind = delim
         then Some (contents, drop (length delim) behind)
         else None)"

lemma take_eq_imp_le:
  assumes "take (length d) xs = d"
  shows "length d \<le> length xs"
proof -
  from arg_cong [OF assms, of length] have "min (length xs) (length d) = length d"
    by simp
  then show ?thesis by (simp add: min_def split: if_splits)
qed

lemma span_at_Some:
  assumes "span_at delim inside s = Some (contents, rest)"
  shows "contents \<noteq> []"
    and "rest = drop (2 * length delim + length contents) s"
    and "2 * length delim + length contents \<le> length s"
proof -
  let ?c = "takeWhile inside (drop (length delim) s)"
  let ?b = "drop (length delim + length ?c) s"
  from assms have c: "contents = ?c" and ne: "?c \<noteq> []"
    and r: "rest = drop (length delim) ?b"
    and p1: "take (length delim) s = delim" and p2: "take (length delim) ?b = delim"
    by (auto simp add: span_at_def Let_def split: if_splits)
  show "contents \<noteq> []" using c ne by simp
  show "rest = drop (2 * length delim + length contents) s"
    using r c by (simp add: mult_2 add.assoc)
  from p2 have "length delim \<le> length ?b"
    by (rule take_eq_imp_le)
  moreover have "length ?c \<le> length s - length delim"
    using length_takeWhile_le [of inside "drop (length delim) s"] by simp
  moreover from p1 have "length delim \<le> length s"
    by (rule take_eq_imp_le)
  ultimately show "2 * length delim + length contents \<le> length s"
    unfolding c by simp
qed

text \<open>Every span is replaced, from left to right; the search goes on behind a span.\<close>

function replace_spans :: "string \<Rightarrow> (char \<Rightarrow> bool) \<Rightarrow> (string \<Rightarrow> string) \<Rightarrow> string \<Rightarrow> string" where
  "replace_spans delim inside f [] = []"
| "replace_spans delim inside f (c # cs) =
     (case span_at delim inside (c # cs) of
        Some (contents, rest) \<Rightarrow> f contents @ replace_spans delim inside f rest
      | None \<Rightarrow> c # replace_spans delim inside f cs)"
  by pat_completeness auto
termination
proof (relation "measure (\<lambda>(delim, inside, f, s). length s)")
  show "wf (measure (\<lambda>(delim, inside, f, s). length s))" by simp
next
  fix delim :: string and inside :: "char \<Rightarrow> bool" and f :: "string \<Rightarrow> string"
    and c :: char and cs x2 contents rest
  assume "span_at delim inside (c # cs) = Some x2" and "(contents, rest) = x2"
  then have s: "span_at delim inside (c # cs) = Some (contents, rest)" by simp
  from span_at_Some [OF s] have "length rest < length (c # cs)"
    by simp
  then show "((delim, inside, f, rest), (delim, inside, f, c # cs))
      \<in> measure (\<lambda>(delim, inside, f, s). length s)"
    by simp
next
  fix delim :: string and inside :: "char \<Rightarrow> bool" and f :: "string \<Rightarrow> string"
    and c :: char and cs
  show "((delim, inside, f, cs), (delim, inside, f, c # cs))
      \<in> measure (\<lambda>(delim, inside, f, s). length s)"
    by simp
qed

text \<open>
  First every \<open>$$...$$\<close> block, whose contents hold no \<open>$\<close>, becomes the display-mode
  rendering of its trimmed contents; then every \<open>$...$\<close> span that remains, whose
  contents hold no \<open>$\<close> and no newline, becomes the inline rendering.
\<close>

definition math_spec :: "(string \<Rightarrow> bool \<Rightarrow> string) \<Rightarrow> string \<Rightarrow> string" where
  "math_spec render html =
     replace_spans ''$'' (\<lambda>c. c \<noteq> CHR ''$'' \<and> c \<noteq> CHR 0x0A) (\<lambda>tex. render (js_trim tex) False)
       (replace_spans ''$$'' (\<lambda>c. c \<noteq> CHR ''$'') (\<lambda>tex. render (js_trim tex) True) html)"

subsection \<open>The regular expressions compute the transform\<close>

lemma rx_match_literal:
  "rx_match (map Chr delim @ rs) s =
     (if take (length delim) s = delim then rx_match rs (drop (length delim) s) else None)"
proof (induction delim arbitrary: s)
  case Nil
  then show ?case by simp
next
  case (Cons d ds)
  then show ?case by (cases s) auto
qed

lemma rx_backtrack_short:
  assumes "\<not> inside d"
  shows "k < length (takeWhile inside t) \<Longrightarrow> rx_backtrack cap (Chr d # rs) t k = None"
proof (induction k)
  case 0
  show ?case by simp
next
  case (Suc k)
  let ?n = "length (takeWhile inside t)"
  have lt: "Suc k < length t"
    using Suc.prems length_takeWhile_le [of inside t] by simp
  have "t ! Suc k = takeWhile inside t ! Suc k"
    using Suc.prems by (simp add: takeWhile_nth)
  moreover have "takeWhile inside t ! Suc k \<in> set (takeWhile inside t)"
    using Suc.prems by simp
  ultimately have "inside (t ! Suc k)"
    by (metis set_takeWhileD)
  with assms have ne: "t ! Suc k \<noteq> d" by auto
  have "drop (Suc k) t = t ! Suc k # drop (Suc (Suc k)) t"
    using lt by (simp add: Cons_nth_drop_Suc)
  with ne have "rx_match (Chr d # rs) (drop (Suc k) t) = None" by simp
  moreover have "rx_backtrack cap (Chr d # rs) t k = None"
    using Suc by simp
  ultimately show ?case by simp
qed

lemma rx_backtrack_full:
  assumes "\<not> inside d"
  shows "rx_backtrack True (Chr d # rs) t (length (takeWhile inside t)) =
     (if takeWhile inside t = [] then None
      else case rx_match (Chr d # rs) (dropWhile inside t) of
             Some (caps, rest) \<Rightarrow> Some (takeWhile inside t # caps, rest)
           | None \<Rightarrow> None)"
proof (cases "length (takeWhile inside t)")
  case 0
  then show ?thesis by simp
next
  case (Suc m)
  have dr: "drop (Suc m) t = dropWhile inside t"
    using Suc by (metis append_eq_conv_conj takeWhile_dropWhile_id)
  have tk: "take (Suc m) t = takeWhile inside t"
    using Suc by (metis append_eq_conv_conj takeWhile_dropWhile_id)
  have short: "rx_backtrack True (Chr d # rs) t m = None"
    using Suc by (intro rx_backtrack_short [of inside d, OF assms]) simp
  have ne: "takeWhile inside t \<noteq> []"
    using Suc by auto
  show ?thesis
    unfolding Suc rx_backtrack.simps dr tk short using ne
    by (simp split: option.splits)
qed

lemma rx_match_span:
  assumes "\<not> inside d"
  shows "rx_match (map Chr (d # ds) @ Group inside # map Chr (d # ds)) s =
     (case span_at (d # ds) inside s of
        Some (contents, rest) \<Rightarrow> Some ([contents], rest)
      | None \<Rightarrow> None)"
proof -
  let ?delim = "d # ds"
  let ?t = "drop (length ?delim) s"
  have lit: "rx_match (map Chr ?delim) u =
      (if take (length ?delim) u = ?delim then Some ([], drop (length ?delim) u) else None)" for u
    using rx_match_literal [of ?delim "[]" u] by simp
  have full: "rx_match (Group inside # map Chr ?delim) ?t =
      (if takeWhile inside ?t = [] then None
       else case rx_match (map Chr ?delim) (dropWhile inside ?t) of
              Some (caps, rest) \<Rightarrow> Some (takeWhile inside ?t # caps, rest)
            | None \<Rightarrow> None)"
    using rx_backtrack_full [of inside d, OF assms, of "map Chr ds" ?t] by simp
  have behind: "drop (length ?delim + length (takeWhile inside ?t)) s = dropWhile inside ?t"
  proof -
    have "drop (length (takeWhile inside ?t)) ?t = dropWhile inside ?t"
      by (metis append_eq_conv_conj takeWhile_dropWhile_id)
    then show ?thesis by (simp add: add.commute)
  qed
  show ?thesis
    unfolding rx_match_literal full lit span_at_def Let_def behind
    by simp
qed

lemma replace_spans_regex:
  assumes rx: "\<And>u. rx_match r u =
      (case span_at delim inside u of
         Some (contents, rest) \<Rightarrow> Some ([contents], rest)
       | None \<Rightarrow> None)"
    and f: "\<And>whole contents. f whole [contents] = g contents"
  shows "replace_from r f 0 s = replace_spans delim inside g s"
proof (induction s rule: length_induct)
  case (1 s)
  show ?case
  proof (cases s)
    case Nil
    have "span_at delim inside [] = None"
      by (simp add: span_at_def)
    then show ?thesis using Nil by (simp add: rx)
  next
    case (Cons c cs)
    show ?thesis
    proof (cases "span_at delim inside (c # cs)")
      case None
      have "replace_from r f 0 cs = replace_spans delim inside g cs"
        using 1 Cons by simp
      with None show ?thesis unfolding Cons by (simp add: rx)
    next
      case (Some p)
      obtain contents rest where p: "p = (contents, rest)" by (cases p)
      with Some have sp: "span_at delim inside (c # cs) = Some (contents, rest)" by simp
      let ?n = "2 * length delim + length contents"
      note facts = span_at_Some [OF sp]
      have n: "length (c # cs) - length rest = ?n"
        using facts(2,3) by simp
      have pos: "?n \<noteq> 0"
        using facts(1) by simp
      have le: "?n - 1 \<le> length cs"
        using facts(3) by simp
      have dr: "drop (?n - 1) cs = rest"
        using facts(2) pos by (cases ?n) simp_all
      have "length rest < length s"
        using facts(2,3) pos Cons by simp
      then have ih: "replace_from r f 0 rest = replace_spans delim inside g rest"
        using 1 by simp
      have m: "rx_match r (c # cs) = Some ([contents], rest)"
        using sp by (simp add: rx)
      have "replace_from r f 0 (c # cs) = g contents @ replace_from r f (?n - 1) cs"
        using pos
        by (simp only: replace_from.simps m option.case prod.case Let_def n if_False f)
      also have "\<dots> = g contents @ replace_spans delim inside g rest"
        by (simp only: replace_from_skip [OF le] dr ih)
      finally show ?thesis unfolding Cons using sp by simp
    qed
  qed
qed

lemma block_replace_spec:
  "replace_from block_rx (render_math (\<lambda>tex d. Some (render tex d)) True) 0 html =
     replace_spans ''$$'' (\<lambda>c. c \<noteq> CHR ''$'') (\<lambda>tex. render (js_trim tex) True) html"
proof (rule replace_spans_regex)
  fix u
  have "\<not> (\<lambda>c. c \<noteq> CHR ''$'') (CHR ''$'')" by simp
  from rx_match_span [of "\<lambda>c. c \<noteq> CHR ''$''" "CHR ''$''", OF this, of "[CHR ''$'']" u]
  show "rx_match block_rx u =
      (case span_at ''$$'' (\<lambda>c. c \<noteq> CHR ''$'') u of
         Some (contents, rest) \<Rightarrow> Some ([contents], rest)
       | None \<Rightarrow> None)"
    by (simp add: block_rx_def)
next
  fix whole contents
  show "render_math (\<lambda>tex d. Some (render tex d)) True whole [contents] =
      render (js_trim contents) True"
    by (simp add: render_math_def)
qed

lemma inline_replace_spec:
  "replace_from inline_rx (render_math (\<lambda>tex d. Some (render tex d)) False) 0 html =
     replace_spans ''$'' (\<lambda>c. c \<noteq> CHR ''$'' \<and> c \<noteq> CHR 0x0A)
       (\<lambda>tex. render (js_trim tex) False) html"
proof (rule replace_spans_regex)
  fix u
  have "\<not> (\<lambda>c. c \<noteq> CHR ''$'' \<and> c \<noteq> CHR 0x0A) (CHR ''$'')" by simp
  from rx_match_span [of "\<lambda>c. c \<noteq> CHR ''$'' \<and> c \<noteq> CHR 0x0A" "CHR ''$''", OF this, of "[]" u]
  show "rx_match inline_rx u =
      (case span_at ''$'' (\<lambda>c. c \<noteq> CHR ''$'' \<and> c \<noteq> CHR 0x0A) u of
         Some (contents, rest) \<Rightarrow> Some ([contents], rest)
       | None \<Rightarrow> None)"
    by (simp add: inline_rx_def)
next
  fix whole contents
  show "render_math (\<lambda>tex d. Some (render tex d)) False whole [contents] =
      render (js_trim contents) False"
    by (simp add: render_math_def)
qed

lemma processMath_spec:
  "processMath (Some (\<lambda>tex d. Some (render tex d))) html = math_spec render html"
  by (simp add: processMath_def js_replace_def Let_def math_spec_def
      block_replace_spec inline_replace_spec)

text \<open>Without KaTeX the math is left as it is, and without marked the text is only
  escaped.\<close>

lemma processMath_without_katex: "processMath None html = html"
  by (simp add: processMath_def)

lemma parse_without_marked: "parse \<lparr>marked = None, katex = kt\<rparr> markdown = escapeHtml markdown"
  by (simp add: parse_def)

text \<open>
  Claim C3. With marked and KaTeX loaded, \<open>Markdown.parse(input)\<close> is
  \<open>processMath(marked.parse(input))\<close> for every input, and \<open>processMath\<close> first replaces
  every \<open>$$...$$\<close> block (a non-empty delimited span without \<open>$\<close>) by the display-mode
  rendering of its trimmed contents and afterwards every remaining \<open>$...$\<close> span (non-empty,
  without \<open>$\<close> and newline) by the inline rendering.
\<close>

theorem parse_composes_math:
  "parse \<lparr>marked = Some marked_parse, katex = kt\<rparr> input = processMath kt (marked_parse input) \<and>
   processMath (Some (\<lambda>tex d. Some (render tex d))) html = math_spec render html \<and>
   parse \<lparr>marked = Some marked_parse, katex = Some (\<lambda>tex d. Some (render tex d))\<rparr> input =
     replace_spans ''$'' (\<lambda>c. c \<noteq> CHR ''$'' \<and> c \<noteq> CHR 0x0A) (\<lambda>tex. render (js_trim tex) False)
       (replace_spans ''$$'' (\<lambda>c. c \<noteq> CHR ''$'') (\<lambda>tex. render (js_trim tex) True)
          (marked_parse input))"
proof -
  have a: "parse \<lparr>marked = Some marked_parse, katex = kt\<rparr> input = processMath kt (marked_parse input)"
    for kt
    by (simp add: parse_def)
  have b: "processMath (Some (\<lambda>tex d. Some (render tex d))) html = math_spec render html"
    for html
    by (rule processMath_spec)
  show ?thesis
    unfolding a b by (simp add: math_spec_def)
qed

lemma math_spec_example:
  "math_spec (\<lambda>t d. (if d then ''[D:'' else ''[I:'') @ t @ '']'')
     ''<p>a $x$ and $$ y $$ $$$z$$ $ $$</p>'' = ''<p>a [I:x] and [D:y] [I:[D:z]] $$</p>''"
  by code_simp

theorem parse_composes_math_witness:
  "parse \<lparr>marked = Some (\<lambda>m. ''<p>'' @ m @ ''</p>''),
          katex = Some (\<lambda>t d. Some ((if d then ''[D:'' else ''[I:'') @ t @ '']''))\<rparr>
     ''a $x$ and $$ y $$ $$$z$$ $ $$'' = ''<p>a [I:x] and [D:y] [I:[D:z]] $$</p>''"
proof -
  note t = parse_composes_math [of "\<lambda>m. ''<p>'' @ m @ ''</p>''" _ "''a $x$ and $$ y $$ $$$z$$ $ $$''"
      "\<lambda>t d. (if d then ''[D:'' else ''[I:'') @ t @ '']''"]
  have "parse \<lparr>marked = Some (\<lambda>m. ''<p>'' @ m @ ''</p>''),
          katex = Some (\<lambda>t d. Some ((if d then ''[D:'' else ''[I:'') @ t @ '']''))\<rparr>
     ''a $x$ and $$ y $$ $$$z$$ $ $$'' =
     math_spec (\<lambda>t d. (if d then ''[D:'' else ''[I:'') @ t @ '']'')
       ''<p>a $x$ and $$ y $$ $$$z$$ $ $$</p>''"
    using t [THEN conjunct2, THEN conjunct2] by (simp add: math_spec_def)
  then show ?thesis by (simp only: math_spec_example)
qed

end
